theory Spec2Isabelle
  imports Complex_Main "HOL-Library.Sublist"
begin

section \<open>Geometry primitives (vision/fuse\_vision.py)\<close>

text \<open>
  Python floats are modelled as the real numbers: every arithmetic operation is exact, there is
  no rounding, no overflow and no NaN.  All results below are about this idealisation.
  A point is a pair of coordinates, a line a pair of points, a polygon a sequence of points.
\<close>

type_synonym point = "real \<times> real"
type_synonym line = "point \<times> point"

datatype direction = into_living | into_room

text \<open>
  The body of the loop of \<open>point_in_polygon\<close>: the value of \<open>intersects\<close> for the edge from
  \<open>(x1, y1)\<close> to \<open>(x2, y2)\<close>.  The divisor \<open>(y2 - y1) or 1e-6\<close> is \<open>y2 - y1\<close> unless that is zero.
\<close>

definition edge_intersects :: "point \<Rightarrow> point \<Rightarrow> point \<Rightarrow> bool" where
  "edge_intersects point v1 v2 =
     (case point of (x, y) \<Rightarrow> case v1 of (x1, y1) \<Rightarrow> case v2 of (x2, y2) \<Rightarrow>
        ((y1 > y) \<noteq> (y2 > y)) \<and>
        x < (x2 - x1) * (y - y1) / (if y2 - y1 \<noteq> 0 then y2 - y1 else 1 / 1000000) + x1)"

definition point_in_polygon :: "point \<Rightarrow> point list \<Rightarrow> bool" where
  "point_in_polygon point polygon =
     fold (\<lambda>i inside.
             if edge_intersects point (polygon ! i) (polygon ! ((i + 1) mod length polygon))
             then \<not> inside else inside)
          [0..<length polygon] False"

definition line_crossed :: "point \<Rightarrow> point \<Rightarrow> line \<Rightarrow> direction option" where
  "line_crossed prev_point curr_point line =
     (case line of ((x1, y1), (x2, y2)) \<Rightarrow>
        let a = y1 - y2;
            b = x2 - x1;
            c = x1 * y2 - x2 * y1;
            prev_side = a * fst prev_point + b * snd prev_point + c;
            curr_side = a * fst curr_point + b * snd curr_point + c
        in if prev_side = 0 \<or> curr_side = 0 \<or> prev_side * curr_side > 0 then None
           else let direction_vector = (fst curr_point - fst prev_point, snd curr_point - snd prev_point);
                    normal = (a, b);
                    dot = fst direction_vector * fst normal + snd direction_vector * snd normal
                in Some (if dot > 0 then into_living else into_room))"

text \<open>The edges of a closed vertex sequence, each vertex paired with its cyclic successor.\<close>

definition edges :: "'a list \<Rightarrow> ('a \<times> 'a) list" where
  "edges xs = zip xs (rotate1 xs)"


section \<open>The fusion service (VisionFusionService)\<close>

datatype door = bed | bath

datatype zone = bedroom | bathroom

record geometry_config =
  bed_door :: line
  bath_door :: line
  living_room_polygon :: "point list"

record fusion_config =
  detection_cooldown :: real
  presence_hold_seconds :: real
  presence_confirm_seconds :: real
  pir_boost_window :: real
  pir_cross_window :: real
  geometry :: geometry_config

text \<open>
  The entries of \<open>FusionConfig.mqtt_topics\<close>.  \<open>load_config\<close> never overrides the dictionary, so
  the topics are the defaults of the dataclass.
\<close>

definition vision_state :: string where
  "vision_state = ''vision/state/living_room''"

definition bed_event_out :: string where
  "bed_event_out = ''events/person/bedroom/out''"

definition bed_event_in :: string where
  "bed_event_in = ''events/person/bedroom/in''"

definition bath_event_out :: string where
  "bath_event_out = ''events/person/bathroom/out''"

definition bath_event_in :: string where
  "bath_event_in = ''events/person/bathroom/in''"

text \<open>
  The two payload dictionaries the service publishes: \<open>{ts, dir, centroid, conf}\<close> for a
  crossing and \<open>{present, conf, ts}\<close> for presence.
\<close>

datatype payload =
    CrossingPayload real direction point real
  | PresencePayload bool real real

text \<open>
  The state of the service: the attributes set in \<open>__init__\<close>, and the sequence of messages
  handed to \<open>_publish\<close> so far (topic and payload, oldest first).  The dictionaries
  \<open>_last_cross_time\<close> and \<open>_pir_last_on\<close> always hold exactly the keys bed/bath and
  bedroom/bathroom, so they are total functions on those keys.
\<close>

record fusion_state =
  last_centroid :: "point option"
  last_cross_time :: "door \<Rightarrow> real"
  last_presence_state :: bool
  presence_enter_time :: real
  presence_exit_start :: real
  pir_last_on :: "zone \<Rightarrow> real"
  pir_last_topic :: "string option"
  published :: "(string \<times> payload) list"

definition fusion_init :: fusion_state where
  "fusion_init =
     \<lparr> last_centroid = None,
       last_cross_time = (\<lambda>d. 0),
       last_presence_state = False,
       presence_enter_time = 0,
       presence_exit_start = 0,
       pir_last_on = (\<lambda>z. 0),
       pir_last_topic = None,
       published = [] \<rparr>"

text \<open>
  One message drained from the PIR queue: its topic, the \<open>state\<close> and \<open>ts\<close> fields of the JSON
  object (absent fields are \<open>None\<close>) and the reading of the clock that \<open>payload.get("ts",
  utc_timestamp())\<close> takes as the default.
\<close>

record pir_event =
  pir_topic :: string
  pir_state :: "string option"
  pir_ts :: "real option"
  pir_now :: real

text \<open>
  What one camera frame contributes.  The OpenCV stage of \<open>_process_frame\<close> (background
  subtraction, morphology, contours, moments) is not modelled; its result is an input:
  \<open>centroid_norm\<close> is \<open>None\<close> on the three paths that call \<open>_update_presence(None)\<close> (no contour,
  contour too small, zero moment) and the normalised centroid otherwise.  The three readings of
  \<open>utc_timestamp()\<close> made while the frame is processed are inputs as well: in
  \<open>_update_presence\<close>, in \<open>_publish_presence\<close> and in \<open>_process_frame\<close>.
\<close>

record frame =
  centroid_norm :: "point option"
  t_presence :: real
  t_publish :: real
  t_detect :: real

text \<open>The dictionary \<open>detection\<close> built by \<open>_process_frame\<close>; the last two keys may be absent.\<close>

record detection =
  det_centroid :: point
  det_ts :: real
  det_door :: "door option"
  det_direction :: "direction option"

text \<open>One iteration of the main loop: the queued PIR messages and the captured frame, if any.\<close>

record loop_input =
  pir_queue :: "pir_event list"
  captured :: "frame option"

definition publish :: "string \<Rightarrow> payload \<Rightarrow> fusion_state \<Rightarrow> fusion_state" where
  "publish topic pl s = s\<lparr>published := published s @ [(topic, pl)]\<rparr>"

definition publish_presence :: "real \<Rightarrow> bool \<Rightarrow> fusion_state \<Rightarrow> fusion_state" where
  "publish_presence now present s =
     publish vision_state (PresencePayload present (if present then 0.9 else 0.8) now) s"

definition update_presence ::
  "fusion_config \<Rightarrow> real \<Rightarrow> real \<Rightarrow> point option \<Rightarrow> fusion_state \<Rightarrow> fusion_state" where
  "update_presence cfg ts ts_pub centroid s =
     (let in_polygon =
            (case centroid of None \<Rightarrow> False
             | Some c \<Rightarrow> point_in_polygon c (living_room_polygon (geometry cfg)))
      in if in_polygon then
           (if \<not> last_presence_state s then
              (if presence_enter_time s = 0 then s\<lparr>presence_enter_time := ts\<rparr>
               else if ts - presence_enter_time s \<ge> presence_confirm_seconds cfg then
                 publish_presence ts_pub True
                   (s\<lparr>last_presence_state := True, presence_exit_start := 0\<rparr>)
               else s)
            else s\<lparr>presence_exit_start := 0\<rparr>)
         else
           (let s1 = s\<lparr>presence_enter_time := 0\<rparr>
            in if last_presence_state s1 then
                 (if presence_exit_start s1 = 0 then s1\<lparr>presence_exit_start := ts\<rparr>
                  else if ts - presence_exit_start s1 \<ge> presence_hold_seconds cfg then
                    publish_presence ts_pub False (s1\<lparr>last_presence_state := False\<rparr>)
                  else s1)
               else s1\<lparr>presence_exit_start := 0\<rparr>))"

text \<open>
  The loop over the doors in \<open>_process_frame\<close>: \<open>continue\<close> goes on with the remaining doors,
  \<open>break\<close> returns.
\<close>

fun check_doors ::
  "fusion_config \<Rightarrow> point \<Rightarrow> point \<Rightarrow> real \<Rightarrow> (door \<times> line) list \<Rightarrow>
   detection \<Rightarrow> fusion_state \<Rightarrow> detection \<times> fusion_state" where
  "check_doors cfg prev centroid ts [] det s = (det, s)"
| "check_doors cfg prev centroid ts ((door_name, line) # rest) det s =
     (case line_crossed prev centroid line of
        None \<Rightarrow> check_doors cfg prev centroid ts rest det s
      | Some dir \<Rightarrow>
          if ts - last_cross_time s door_name < detection_cooldown cfg
          then check_doors cfg prev centroid ts rest det s
          else (det\<lparr>det_door := Some door_name, det_direction := Some dir\<rparr>,
                s\<lparr>last_cross_time := (last_cross_time s)(door_name := ts)\<rparr>))"

definition process_frame ::
  "fusion_config \<Rightarrow> frame \<Rightarrow> fusion_state \<Rightarrow> detection option \<times> fusion_state" where
  "process_frame cfg fr s =
     (case centroid_norm fr of
        None \<Rightarrow> (None, update_presence cfg (t_presence fr) (t_publish fr) None s)
      | Some c \<Rightarrow>
          let s1 = update_presence cfg (t_presence fr) (t_publish fr) (Some c) s;
              prev = last_centroid s1;
              s2 = s1\<lparr>last_centroid := Some c\<rparr>
          in (case prev of
                None \<Rightarrow> (None, s2)
              | Some p \<Rightarrow>
                  let ts = t_detect fr;
                      det = \<lparr>det_centroid = c, det_ts = ts, det_door = None, det_direction = None\<rparr>;
                      (det', s3) =
                         check_doors cfg p c ts
                           [(bed, bed_door (geometry cfg)), (bath, bath_door (geometry cfg))] det s2
                  in (Some det', s3)))"

definition handle_detection :: "fusion_config \<Rightarrow> detection \<Rightarrow> fusion_state \<Rightarrow> fusion_state" where
  "handle_detection cfg det s =
     (case det_door det of
        None \<Rightarrow> s
      | Some dr \<Rightarrow>
         (case det_direction det of
            None \<Rightarrow> s
          | Some dir \<Rightarrow>
              let centroid = det_centroid det;
                  ts = det_ts det;
                  zn = (if dr = bed then bedroom else bathroom);
                  pir_ts = pir_last_on s zn;
                  pir_recent = (ts - pir_ts \<le> pir_cross_window cfg);
                  confidence = (if pir_recent then 0.85 else 0.7);
                  pl = CrossingPayload ts dir centroid confidence;
                  topic =
                    (if dir = into_living
                     then (if zn = bedroom then bed_event_out else bath_event_out)
                     else (if zn = bedroom then bed_event_in else bath_event_in))
              in publish topic pl s))"

fun handle_pir_events :: "pir_event list \<Rightarrow> fusion_state \<Rightarrow> fusion_state" where
  "handle_pir_events [] s = s"
| "handle_pir_events (ev # evs) s =
     (let zn = (if sublist ''bedroom'' (pir_topic ev) then bedroom else bathroom)
      in if pir_state ev = Some ''ON''
         then handle_pir_events evs
                (s\<lparr>pir_last_on :=
                      (pir_last_on s)(zn := (case pir_ts ev of Some t \<Rightarrow> t | None \<Rightarrow> pir_now ev)),
                    pir_last_topic := Some (pir_topic ev)\<rparr>)
         else handle_pir_events evs s)"

text \<open>The body of the \<open>while\<close> loop of \<open>run\<close> and \<open>main\<close>.\<close>

definition run_iteration :: "fusion_config \<Rightarrow> loop_input \<Rightarrow> fusion_state \<Rightarrow> fusion_state" where
  "run_iteration cfg inp s =
     (let s1 = handle_pir_events (pir_queue inp) s
      in case captured inp of
           None \<Rightarrow> s1
         | Some fr \<Rightarrow>
             (case process_frame cfg fr s1 of
                (None, s2) \<Rightarrow> s2
              | (Some det, s2) \<Rightarrow> handle_detection cfg det s2))"

text \<open>
  The loop never ends by itself; an execution is observed through its finite prefixes, one
  input per iteration.
\<close>

fun run :: "fusion_config \<Rightarrow> loop_input list \<Rightarrow> fusion_state \<Rightarrow> fusion_state" where
  "run cfg [] s = s"
| "run cfg (inp # inps) s = run cfg inps (run_iteration cfg inp s)"

text \<open>The configuration of the end-to-end scenarios (the defaults of the dataclasses).\<close>

definition scenario_config :: fusion_config where
  "scenario_config =
     \<lparr> detection_cooldown = 1.0,
       presence_hold_seconds = 3.0,
       presence_confirm_seconds = 0.5,
       pir_boost_window = 2.0,
       pir_cross_window = 1.0,
       geometry =
         \<lparr> bed_door = ((0.15, 0.30), (0.35, 0.30)),
           bath_door = ((0.65, 0.40), (0.85, 0.40)),
           living_room_polygon = [(0.2, 0.35), (0.8, 0.35), (0.85, 0.9), (0.15, 0.9)] \<rparr> \<rparr>"

text \<open>
  An iteration with an empty PIR queue whose frame yields the centroid \<open>c\<close> and in which every
  reading of the clock is \<open>t\<close>.
\<close>

definition centroid_at :: "point \<Rightarrow> real \<Rightarrow> loop_input" where
  "centroid_at c t =
     \<lparr> pir_queue = [],
       captured = Some \<lparr>centroid_norm = Some c, t_presence = t, t_publish = t, t_detect = t\<rparr> \<rparr>"

text \<open>An iteration with an empty PIR queue whose frame yields no centroid, at time \<open>t\<close>.\<close>

definition no_centroid_at :: "real \<Rightarrow> loop_input" where
  "no_centroid_at t =
     \<lparr> pir_queue = [],
       captured = Some \<lparr>centroid_norm = None, t_presence = t, t_publish = t, t_detect = t\<rparr> \<rparr>"

text \<open>The published crossing events of one door, and the published presence events.\<close>

definition door_topics :: "door \<Rightarrow> string list" where
  "door_topics d = (if d = bed then [bed_event_out, bed_event_in] else [bath_event_out, bath_event_in])"

definition payload_ts :: "payload \<Rightarrow> real" where
  "payload_ts pl = (case pl of CrossingPayload ts dir c conf \<Rightarrow> ts | PresencePayload p conf ts \<Rightarrow> ts)"

definition crossings_of :: "door \<Rightarrow> (string \<times> payload) list \<Rightarrow> real list" where
  "crossings_of d msgs = map (payload_ts \<circ> snd) (filter (\<lambda>m. fst m \<in> set (door_topics d)) msgs)"

definition presence_events :: "(string \<times> payload) list \<Rightarrow> (bool \<times> real) list" where
  "presence_events msgs =
     concat (map (\<lambda>m. case snd m of PresencePayload p conf ts \<Rightarrow> [(p, conf)]
                                   | CrossingPayload ts dir c conf \<Rightarrow> []) msgs)"


text \<open>
  The invariants behind the two ordering guarantees.  For a door: the published crossings of the
  door are spaced by the cooldown, and the last of them is the value stored in
  \<open>_last_cross_time\<close>.  For presence: the published presence events alternate, start with
  \<open>True\<close>, carry the confidence of their value, and the last of them is the stored state.
\<close>

definition cooldown_inv :: "fusion_config \<Rightarrow> door \<Rightarrow> fusion_state \<Rightarrow> bool" where
  "cooldown_inv cfg d s \<longleftrightarrow>
     successively (\<lambda>t1 t2. detection_cooldown cfg \<le> t2 - t1) (crossings_of d (published s)) \<and>
     (crossings_of d (published s) = [] \<or>
      last (crossings_of d (published s)) = last_cross_time s d)"

definition presence_inv :: "fusion_state \<Rightarrow> bool" where
  "presence_inv s \<longleftrightarrow>
     successively (\<lambda>e1 e2. fst e1 \<noteq> fst e2) (presence_events (published s)) \<and>
     (presence_events (published s) = [] \<or> fst (hd (presence_events (published s)))) \<and>
     (\<forall>e \<in> set (presence_events (published s)). snd e = (if fst e then 0.9 else 0.8)) \<and>
     last_presence_state s =
       (if presence_events (published s) = [] then False
        else fst (last (presence_events (published s))))"


section \<open>The spotlight controller (nodes/spotlight\_controller.py)\<close>

record spotlight_config =
  light_hold_seconds :: real
  brightness :: real
  rest_brightness :: real
  servo_pan_angle :: real
  servo_tilt_angle :: real
  servo_rest_pan :: real
  servo_rest_tilt :: real
  servo_min_angle :: real
  servo_max_angle :: real
  auto_rest :: bool

definition default_config :: spotlight_config where
  "default_config =
     \<lparr> light_hold_seconds = 8.0,
       brightness = 0.85,
       rest_brightness = 0.0,
       servo_pan_angle = -20.0,
       servo_tilt_angle = -5.0,
       servo_rest_pan = 0.0,
       servo_rest_tilt = 0.0,
       servo_min_angle = -90.0,
       servo_max_angle = 90.0,
       auto_rest = True \<rparr>"

text \<open>
  What \<open>SpotlightHardware\<close> does to the outside: an assignment to a servo angle or to the LED
  value, or, in mock mode, the log line that stands for it.  The constructor creates all three
  devices whenever it does not enter mock mode, so the guards \<open>if self._pan\<close>, \<open>if self._tilt\<close>
  and \<open>if self._led\<close> hold there.
\<close>

datatype hw_write =
    PanAngle real
  | TiltAngle real
  | LedValue real
  | MockOrientation real real
  | MockBrightness real

record hardware =
  mock :: bool
  writes :: "hw_write list"

definition clamp_angle :: "spotlight_config \<Rightarrow> real \<Rightarrow> real" where
  "clamp_angle cfg angle = max (servo_min_angle cfg) (min (servo_max_angle cfg) angle)"

definition set_orientation :: "spotlight_config \<Rightarrow> real \<Rightarrow> real \<Rightarrow> hardware \<Rightarrow> hardware" where
  "set_orientation cfg pan tilt hw =
     (let pan' = clamp_angle cfg pan;
          tilt' = clamp_angle cfg tilt
      in if mock hw then hw\<lparr>writes := writes hw @ [MockOrientation pan' tilt']\<rparr>
         else hw\<lparr>writes := writes hw @ [PanAngle pan', TiltAngle tilt']\<rparr>)"

definition set_brightness :: "real \<Rightarrow> hardware \<Rightarrow> hardware" where
  "set_brightness v hw =
     (let v' = max 0 (min 1 v)
      in if mock hw then hw\<lparr>writes := writes hw @ [MockBrightness v']\<rparr>
         else hw\<lparr>writes := writes hw @ [LedValue v']\<rparr>)"

text \<open>
  The controller: its hardware, \<open>_last_on\<close>, \<open>_current_brightness\<close> and the state of
  \<open>self._lock\<close>, a \<open>threading.Lock\<close>.  That lock is not reentrant: acquiring it while it is held
  waits until the holder releases it.  The operations below are run by one thread from entry to
  return, so a lock found held at an acquisition is held by the acquiring thread itself and is
  never released: the call blocks forever.  A call that blocks forever has the result \<open>None\<close>;
  a call that returns has the result \<open>Some\<close> of the state it leaves.
\<close>

record controller =
  hw :: hardware
  last_on :: real
  current_brightness :: real
  lock_held :: bool

definition controller_init :: "spotlight_config \<Rightarrow> bool \<Rightarrow> controller" where
  "controller_init cfg m =
     \<lparr> hw = \<lparr>mock = m, writes = []\<rparr>,
       last_on = 0,
       current_brightness = rest_brightness cfg,
       lock_held = False \<rparr>"

definition acquire :: "controller \<Rightarrow> controller option" where
  "acquire s = (if lock_held s then None else Some (s\<lparr>lock_held := True\<rparr>))"

definition release :: "controller \<Rightarrow> controller" where
  "release s = s\<lparr>lock_held := False\<rparr>"

definition activate :: "spotlight_config \<Rightarrow> real \<Rightarrow> controller \<Rightarrow> controller option" where
  "activate cfg now s =
     (case acquire s of
        None \<Rightarrow> None
      | Some s1 \<Rightarrow>
          let s2 = s1\<lparr>last_on := now\<rparr>
          in if current_brightness s2 = brightness cfg then Some (release s2)
             else
               let h1 = set_orientation cfg (servo_pan_angle cfg) (servo_tilt_angle cfg) (hw s2);
                   h2 = set_brightness (brightness cfg) h1
               in Some (release (s2\<lparr>hw := h2, current_brightness := brightness cfg\<rparr>)))"

definition deactivate :: "spotlight_config \<Rightarrow> controller \<Rightarrow> controller option" where
  "deactivate cfg s =
     (case acquire s of
        None \<Rightarrow> None
      | Some s1 \<Rightarrow>
          if current_brightness s1 = rest_brightness cfg then Some (release s1)
          else
            let h1 = set_brightness (rest_brightness cfg) (hw s1);
                s2 = s1\<lparr>hw := h1, current_brightness := rest_brightness cfg\<rparr>
            in if auto_rest cfg
               then Some (release
                      (s2\<lparr>hw := set_orientation cfg (servo_rest_pan cfg) (servo_rest_tilt cfg) (hw s2)\<rparr>))
               else Some (release s2))"

definition periodic :: "spotlight_config \<Rightarrow> real \<Rightarrow> controller \<Rightarrow> controller option" where
  "periodic cfg now s =
     (if light_hold_seconds cfg \<le> 0 then Some s
      else
        (case acquire s of
           None \<Rightarrow> None
         | Some s1 \<Rightarrow>
             if current_brightness s1 \<noteq> brightness cfg then Some (release s1)
             else if now - last_on s1 \<ge> light_hold_seconds cfg then
               (case deactivate cfg s1 of
                  None \<Rightarrow> None
                | Some s2 \<Rightarrow> Some (release s2))
             else Some (release s1)))"


section \<open>Geometry laws\<close>

lemma fold_toggle:
  "fold (\<lambda>i inside. if P i then \<not> inside else inside) xs b = (b \<noteq> odd (length (filter P xs)))"
  by (induction xs arbitrary: b) auto

lemma edges_nth: "map (\<lambda>i. (xs ! i, xs ! ((i + 1) mod length xs))) [0..<length xs] = edges xs"
  by (rule nth_equalityI) (simp_all add: edges_def nth_rotate1)

lemma pip_edges:
  "point_in_polygon p poly = odd (length (filter (\<lambda>(v1, v2). edge_intersects p v1 v2) (edges poly)))"
proof -
  have "point_in_polygon p poly =
      odd (length (filter (\<lambda>i. edge_intersects p (poly ! i) (poly ! ((i + 1) mod length poly))) [0..<length poly]))"
    by (simp add: point_in_polygon_def fold_toggle)
  also have "filter (\<lambda>i. edge_intersects p (poly ! i) (poly ! ((i + 1) mod length poly))) [0..<length poly]
     = filter ((\<lambda>(v1, v2). edge_intersects p v1 v2) \<circ> (\<lambda>i. (poly ! i, poly ! ((i + 1) mod length poly)))) [0..<length poly]"
    by (simp add: comp_def)
  also have "length \<dots> = length (filter (\<lambda>(v1, v2). edge_intersects p v1 v2) (map (\<lambda>i. (poly ! i, poly ! ((i + 1) mod length poly))) [0..<length poly]))"
    by (simp only: filter_map length_map)
  finally show ?thesis by (simp only: edges_nth)
qed

lemma rotate1_zip: "length xs = length ys \<Longrightarrow> rotate1 (zip xs ys) = zip (rotate1 xs) (rotate1 ys)"
  by (cases xs; cases ys) simp_all

lemma edges_rotate1: "edges (rotate1 xs) = rotate1 (edges xs)"
  by (simp add: edges_def rotate1_zip)

lemma length_filter_rotate1: "length (filter P (rotate1 xs)) = length (filter P xs)"
  by (cases xs) simp_all

lemma pip_rotate1: "point_in_polygon p (rotate1 poly) = point_in_polygon p poly"
  by (simp add: pip_edges edges_rotate1 length_filter_rotate1)

lemma pip_rotate: "point_in_polygon p (rotate k poly) = point_in_polygon p poly"
  by (induction k) (simp_all add: pip_rotate1)

lemma edge_intersects_sym: "edge_intersects p v2 v1 = edge_intersects p v1 v2"
proof -
  obtain x y x1 y1 x2 y2 where [simp]: "p = (x, y)" "v1 = (x1, y1)" "v2 = (x2, y2)"
    by (cases p, cases v1, cases v2) auto
  show ?thesis
  proof (cases "y1 = y2")
    case True
    then show ?thesis by (simp add: edge_intersects_def)
  next
    case False
    then have "(x2 - x1) * (y - y1) / (y2 - y1) + x1 = (x1 - x2) * (y - y2) / (y1 - y2) + x2"
      by (simp add: field_simps)
    with False show ?thesis by (auto simp: edge_intersects_def)
  qed
qed

lemma edges_rev: "map (\<lambda>(a, b). (b, a)) (edges (rev xs)) = rotate1 (rev (edges xs))"
proof -
  have u: "rotate1 (rev (rotate1 xs)) = rev xs"
    by (cases xs) simp_all
  have "rotate1 (rev (edges xs)) = rotate1 (zip (rev xs) (rev (rotate1 xs)))"
    by (simp add: edges_def zip_rev)
  also have "\<dots> = zip (rotate1 (rev xs)) (rotate1 (rev (rotate1 xs)))"
    by (simp add: rotate1_zip)
  also have "\<dots> = zip (rotate1 (rev xs)) (rev xs)"
    by (simp only: u)
  also have "\<dots> = map (\<lambda>(a, b). (b, a)) (zip (rev xs) (rotate1 (rev xs)))"
    by (rule zip_commute)
  finally show ?thesis by (simp add: edges_def)
qed

lemma length_filter_swap:
  "length (filter (\<lambda>(v1, v2). edge_intersects p v1 v2) (map (\<lambda>(a, b). (b, a)) es))
   = length (filter (\<lambda>(v1, v2). edge_intersects p v1 v2) es)"
  by (induction es) (auto simp: edge_intersects_sym)

lemma pip_rev: "point_in_polygon p (rev poly) = point_in_polygon p poly"
proof -
  have "length (filter (\<lambda>(v1, v2). edge_intersects p v1 v2) (edges (rev poly)))
      = length (filter (\<lambda>(v1, v2). edge_intersects p v1 v2) (map (\<lambda>(a, b). (b, a)) (edges (rev poly))))"
    by (simp only: length_filter_swap)
  also have "\<dots> = length (filter (\<lambda>(v1, v2). edge_intersects p v1 v2) (rev (edges poly)))"
    by (simp only: edges_rev length_filter_rotate1)
  also have "\<dots> = length (filter (\<lambda>(v1, v2). edge_intersects p v1 v2) (edges poly))"
    by (simp add: rev_filter [symmetric])
  finally show ?thesis by (simp only: pip_edges)
qed

text \<open>
  In exact arithmetic, \<open>point_in_polygon\<close> returns the same boolean on the vertex sequence
  rotated cyclically by any number of places and on the reversed sequence.
\<close>

theorem point_in_polygon_rotate_rev:
  "point_in_polygon p (rotate k poly) = point_in_polygon p poly \<and>
   point_in_polygon p (rev poly) = point_in_polygon p poly"
  by (simp only: pip_rotate pip_rev)

text \<open>
  In exact arithmetic, for all points \<open>p\<close>, \<open>q\<close> and every line \<open>L\<close>, \<open>line_crossed p q L\<close> and
  \<open>line_crossed q p L\<close> are both \<open>None\<close>, or one is \<open>into_living\<close> and the other \<open>into_room\<close>.
\<close>

theorem line_crossed_opposite:
  "(line_crossed p q L = None \<and> line_crossed q p L = None) \<or>
   (line_crossed p q L = Some into_living \<and> line_crossed q p L = Some into_room) \<or>
   (line_crossed p q L = Some into_room \<and> line_crossed q p L = Some into_living)"
proof -
  obtain x1 y1 x2 y2 where L: "L = ((x1, y1), (x2, y2))"
    by (metis surj_pair)
  define a where "a = y1 - y2"
  define b where "b = x2 - x1"
  define c where "c = x1 * y2 - x2 * y1"
  define ps where "ps = a * fst p + b * snd p + c"
  define cs where "cs = a * fst q + b * snd q + c"
  have dot: "(fst q - fst p) * a + (snd q - snd p) * b = cs - ps"
    by (simp add: ps_def cs_def algebra_simps)
  have dot': "(fst p - fst q) * a + (snd p - snd q) * b = ps - cs"
    by (simp add: ps_def cs_def algebra_simps)
  have pc: "line_crossed p q L =
      (if ps = 0 \<or> cs = 0 \<or> ps * cs > 0 then None
       else Some (if cs - ps > 0 then into_living else into_room))"
    unfolding line_crossed_def L Let_def prod.case fst_conv snd_conv
    by (simp only: dot a_def [symmetric] b_def [symmetric] c_def [symmetric] ps_def [symmetric] cs_def [symmetric])
  have cp: "line_crossed q p L =
      (if cs = 0 \<or> ps = 0 \<or> cs * ps > 0 then None
       else Some (if ps - cs > 0 then into_living else into_room))"
    unfolding line_crossed_def L Let_def prod.case fst_conv snd_conv
    by (simp only: dot' a_def [symmetric] b_def [symmetric] c_def [symmetric] ps_def [symmetric] cs_def [symmetric])
  show ?thesis
  proof (cases "ps = 0 \<or> cs = 0 \<or> ps * cs > 0")
    case True
    then show ?thesis by (auto simp: pc cp mult.commute)
  next
    case False
    then have "ps \<noteq> 0" "cs \<noteq> 0" "\<not> ps * cs > 0" by simp_all
    then have "ps * cs < 0" by (metis less_linear mult_eq_0_iff)
    then have "(ps < 0 \<and> 0 < cs) \<or> (0 < ps \<and> cs < 0)"
      by (auto simp: mult_less_0_iff)
    with False show ?thesis by (auto simp: pc cp mult.commute)
  qed
qed


section \<open>Steps of the fusion service\<close>

lemma handle_pir_events_keeps:
  "published (handle_pir_events evs s) = published s"
  "last_cross_time (handle_pir_events evs s) = last_cross_time s"
  "last_presence_state (handle_pir_events evs s) = last_presence_state s"
  "last_centroid (handle_pir_events evs s) = last_centroid s"
  by (induction evs arbitrary: s) (simp_all add: Let_def)

lemma update_presence_published:
  "published (update_presence cfg ts tp c s) =
     published s @
       (if last_presence_state (update_presence cfg ts tp c s) = last_presence_state s then []
        else [(vision_state,
               PresencePayload (\<not> last_presence_state s)
                 (if \<not> last_presence_state s then 0.9 else 0.8) tp)])"
  by (simp add: update_presence_def publish_presence_def publish_def Let_def)

lemma update_presence_keeps:
  "last_cross_time (update_presence cfg ts tp c s) = last_cross_time s"
  "last_centroid (update_presence cfg ts tp c s) = last_centroid s"
  by (simp_all add: update_presence_def publish_presence_def publish_def Let_def)

lemma check_doors_cases:
  "check_doors cfg p c ts doors det s = (det', s') \<Longrightarrow>
     (det' = det \<and> s' = s) \<or>
     (\<exists>d dir. d \<in> fst ` set doors \<and>
        det_door det' = Some d \<and> det_direction det' = Some dir \<and>
        det_ts det' = det_ts det \<and> det_centroid det' = det_centroid det \<and>
        published s' = published s \<and>
        last_presence_state s' = last_presence_state s \<and>
        pir_last_on s' = pir_last_on s \<and>
        last_cross_time s' d = ts \<and>
        (\<forall>d'. d' \<noteq> d \<longrightarrow> last_cross_time s' d' = last_cross_time s d') \<and>
        detection_cooldown cfg \<le> ts - last_cross_time s d)"
proof (induction doors)
  case Nil
  then show ?case by simp
next
  case (Cons a doors)
  obtain d l where a: "a = (d, l)" by (cases a)
  show ?case
  proof (cases "line_crossed p c l")
    case None
    with Cons a show ?thesis by auto
  next
    case (Some dir)
    show ?thesis
    proof (cases "ts - last_cross_time s d < detection_cooldown cfg")
      case True
      with Cons a Some show ?thesis by auto
    next
      case False
      with Cons.prems a Some
      have "det' = det\<lparr>det_door := Some d, det_direction := Some dir\<rparr>"
        and "s' = s\<lparr>last_cross_time := (last_cross_time s)(d := ts)\<rparr>"
        by simp_all
      with False a show ?thesis
        by (intro disjI2 exI [of _ d] exI [of _ dir] conjI) simp_all
    qed
  qed
qed

lemma crossings_of_append:
  "crossings_of d (xs @ ys) = crossings_of d xs @ crossings_of d ys"
  by (simp add: crossings_of_def)

lemma presence_events_append:
  "presence_events (xs @ ys) = presence_events xs @ presence_events ys"
  by (simp add: presence_events_def)

lemma process_frame_cases:
  assumes "process_frame cfg fr s = (r, s')"
  shows "published s' = published (update_presence cfg (t_presence fr) (t_publish fr) (centroid_norm fr) s) \<and>
         last_presence_state s' =
           last_presence_state (update_presence cfg (t_presence fr) (t_publish fr) (centroid_norm fr) s) \<and>
         pir_last_on s' = pir_last_on (update_presence cfg (t_presence fr) (t_publish fr) (centroid_norm fr) s) \<and>
         ((last_cross_time s' = last_cross_time s \<and>
             (r = None \<or> (\<exists>det. r = Some det \<and> det_door det = None))) \<or>
           (\<exists>d dir det. r = Some det \<and> det_door det = Some d \<and> det_direction det = Some dir \<and>
              det_ts det = t_detect fr \<and>
              last_cross_time s' d = t_detect fr \<and>
              (\<forall>d'. d' \<noteq> d \<longrightarrow> last_cross_time s' d' = last_cross_time s d') \<and>
              detection_cooldown cfg \<le> t_detect fr - last_cross_time s d))"
proof (cases "centroid_norm fr")
  case None
  with assms show ?thesis by (auto simp: process_frame_def update_presence_keeps)
next
  case (Some c)
  define s1 where "s1 = update_presence cfg (t_presence fr) (t_publish fr) (Some c) s"
  define s2 where "s2 = s1\<lparr>last_centroid := Some c\<rparr>"
  have lct: "last_cross_time s2 = last_cross_time s"
    by (simp add: s2_def s1_def update_presence_keeps)
  show ?thesis
  proof (cases "last_centroid s1")
    case None
    with assms Some show ?thesis
      by (auto simp: process_frame_def Let_def s1_def update_presence_keeps)
  next
    case (Some p)
    define det0 where "det0 = \<lparr>det_centroid = c, det_ts = t_detect fr, det_door = None, det_direction = None\<rparr>"
    obtain det' s3 where cd: "check_doors cfg p c (t_detect fr)
        [(bed, bed_door (geometry cfg)), (bath, bath_door (geometry cfg))] det0 s2 = (det', s3)"
      by (cases "check_doors cfg p c (t_detect fr)
        [(bed, bed_door (geometry cfg)), (bath, bath_door (geometry cfg))] det0 s2")
    have "process_frame cfg fr s = (Some det', s3)"
      using cd Some \<open>centroid_norm fr = Some c\<close> unfolding s2_def s1_def det0_def
      by (simp add: process_frame_def Let_def del: check_doors.simps)
    with assms have r: "r = Some det'" "s' = s3"
      by simp_all
    from check_doors_cases [OF cd]
    show ?thesis
    proof
      assume "det' = det0 \<and> s3 = s2"
      with r \<open>centroid_norm fr = Some c\<close> lct show ?thesis
        by (simp add: s2_def s1_def det0_def)
    next
      assume "\<exists>d dir. d \<in> fst ` set [(bed, bed_door (geometry cfg)), (bath, bath_door (geometry cfg))] \<and>
        det_door det' = Some d \<and> det_direction det' = Some dir \<and>
        det_ts det' = det_ts det0 \<and> det_centroid det' = det_centroid det0 \<and>
        published s3 = published s2 \<and>
        last_presence_state s3 = last_presence_state s2 \<and>
        pir_last_on s3 = pir_last_on s2 \<and>
        last_cross_time s3 d = t_detect fr \<and>
        (\<forall>d'. d' \<noteq> d \<longrightarrow> last_cross_time s3 d' = last_cross_time s2 d') \<and>
        detection_cooldown cfg \<le> t_detect fr - last_cross_time s2 d"
      then obtain d dir where
        "det_door det' = Some d" "det_direction det' = Some dir" "det_ts det' = det_ts det0"
        "published s3 = published s2" "last_presence_state s3 = last_presence_state s2"
        "pir_last_on s3 = pir_last_on s2"
        "last_cross_time s3 d = t_detect fr"
        "\<forall>d'. d' \<noteq> d \<longrightarrow> last_cross_time s3 d' = last_cross_time s2 d'"
        "detection_cooldown cfg \<le> t_detect fr - last_cross_time s2 d"
        by blast
      with r \<open>centroid_norm fr = Some c\<close> lct show ?thesis
        by (simp add: s2_def s1_def det0_def)
    qed
  qed
qed

lemma door_topics_vision: "vision_state \<notin> set (door_topics d)"
  by (simp add: door_topics_def vision_state_def bed_event_out_def bed_event_in_def
      bath_event_out_def bath_event_in_def)

lemma update_presence_crossings:
  "crossings_of d (published (update_presence cfg ts tp c s)) = crossings_of d (published s)"
  by (simp add: update_presence_published crossings_of_def door_topics_vision)

lemma update_presence_presence:
  "presence_events (published (update_presence cfg ts tp c s)) =
     presence_events (published s) @
       (if last_presence_state (update_presence cfg ts tp c s) = last_presence_state s then []
        else [(last_presence_state (update_presence cfg ts tp c s),
               if last_presence_state (update_presence cfg ts tp c s) then 0.9 else 0.8)])"
  by (auto simp: update_presence_published presence_events_def)

lemma handle_detection_presence:
  "presence_events (published (handle_detection cfg det s)) = presence_events (published s)"
  "last_presence_state (handle_detection cfg det s) = last_presence_state s"
  "last_cross_time (handle_detection cfg det s) = last_cross_time s"
  by (simp_all add: handle_detection_def publish_def presence_events_def Let_def
      split: option.split)

lemma handle_detection_crossings:
  "crossings_of d (published (handle_detection cfg det s)) =
     crossings_of d (published s) @
       (if det_door det = Some d \<and> det_direction det \<noteq> None then [det_ts det] else [])"
proof -
  have ex: "\<And>x. x \<noteq> bed \<Longrightarrow> x = bath"
    by (metis door.exhaust)
  show ?thesis
    by (cases d)
       (auto simp: handle_detection_def publish_def crossings_of_def door_topics_def payload_ts_def
         Let_def bed_event_out_def bed_event_in_def bath_event_out_def bath_event_in_def
         split: option.split dest: ex)
qed

lemma run_iteration_presence:
  "presence_events (published (run_iteration cfg inp s)) =
     presence_events (published s) @
       (if last_presence_state (run_iteration cfg inp s) = last_presence_state s then []
        else [(last_presence_state (run_iteration cfg inp s),
               if last_presence_state (run_iteration cfg inp s) then 0.9 else 0.8)])"
proof (cases "captured inp")
  case None
  then show ?thesis by (simp add: run_iteration_def handle_pir_events_keeps)
next
  case (Some fr)
  define s1 where "s1 = handle_pir_events (pir_queue inp) s"
  obtain r s2 where pf: "process_frame cfg fr s1 = (r, s2)"
    by (cases "process_frame cfg fr s1")
  note c = process_frame_cases [OF pf]
  have s1: "presence_events (published s1) = presence_events (published s)"
    "last_presence_state s1 = last_presence_state s"
    by (simp_all add: s1_def handle_pir_events_keeps)
  have "presence_events (published (run_iteration cfg inp s)) = presence_events (published s2)
      \<and> last_presence_state (run_iteration cfg inp s) = last_presence_state s2"
    using Some pf by (cases r) (simp_all add: run_iteration_def s1_def [symmetric] handle_detection_presence)
  with c s1 show ?thesis
    using update_presence_presence [of cfg "t_presence fr" "t_publish fr" "centroid_norm fr" s1]
    by simp
qed

lemma run_iteration_crossings:
  "(crossings_of d (published (run_iteration cfg inp s)) = crossings_of d (published s) \<and>
    last_cross_time (run_iteration cfg inp s) d = last_cross_time s d) \<or>
   (\<exists>t. crossings_of d (published (run_iteration cfg inp s)) = crossings_of d (published s) @ [t] \<and>
        last_cross_time (run_iteration cfg inp s) d = t \<and>
        detection_cooldown cfg \<le> t - last_cross_time s d \<and>
        (\<exists>fr. captured inp = Some fr \<and> t = t_detect fr))"
proof (cases "captured inp")
  case None
  then show ?thesis by (simp add: run_iteration_def handle_pir_events_keeps)
next
  case (Some fr)
  define s1 where "s1 = handle_pir_events (pir_queue inp) s"
  obtain r s2 where pf: "process_frame cfg fr s1 = (r, s2)"
    by (cases "process_frame cfg fr s1")
  note c = process_frame_cases [OF pf]
  have s1: "crossings_of d (published s1) = crossings_of d (published s)"
    "last_cross_time s1 = last_cross_time s"
    by (simp_all add: s1_def handle_pir_events_keeps)
  have s2: "crossings_of d (published s2) = crossings_of d (published s)"
    using c s1 by (simp add: update_presence_crossings)
  from c have "(last_cross_time s2 = last_cross_time s1 \<and>
             (r = None \<or> (\<exists>det. r = Some det \<and> det_door det = None))) \<or>
           (\<exists>d dir det. r = Some det \<and> det_door det = Some d \<and> det_direction det = Some dir \<and>
              det_ts det = t_detect fr \<and>
              last_cross_time s2 d = t_detect fr \<and>
              (\<forall>d'. d' \<noteq> d \<longrightarrow> last_cross_time s2 d' = last_cross_time s1 d') \<and>
              detection_cooldown cfg \<le> t_detect fr - last_cross_time s1 d)"
    by blast
  then show ?thesis
  proof
    assume a: "last_cross_time s2 = last_cross_time s1 \<and>
             (r = None \<or> (\<exists>det. r = Some det \<and> det_door det = None))"
    then have "crossings_of d (published (run_iteration cfg inp s)) = crossings_of d (published s)
       \<and> last_cross_time (run_iteration cfg inp s) d = last_cross_time s d"
      using Some pf s1 s2
      by (auto simp: run_iteration_def s1_def [symmetric] handle_detection_crossings
          handle_detection_presence)
    then show ?thesis by blast
  next
    assume "\<exists>d dir det. r = Some det \<and> det_door det = Some d \<and> det_direction det = Some dir \<and>
              det_ts det = t_detect fr \<and>
              last_cross_time s2 d = t_detect fr \<and>
              (\<forall>d'. d' \<noteq> d \<longrightarrow> last_cross_time s2 d' = last_cross_time s1 d') \<and>
              detection_cooldown cfg \<le> t_detect fr - last_cross_time s1 d"
    then obtain d0 dir det where b: "r = Some det" "det_door det = Some d0"
      "det_direction det = Some dir" "det_ts det = t_detect fr"
      "last_cross_time s2 d0 = t_detect fr"
      "\<forall>d'. d' \<noteq> d0 \<longrightarrow> last_cross_time s2 d' = last_cross_time s1 d'"
      "detection_cooldown cfg \<le> t_detect fr - last_cross_time s1 d0"
      by blast
    have ri: "run_iteration cfg inp s = handle_detection cfg det s2"
      using Some pf b(1) by (simp add: run_iteration_def s1_def [symmetric])
    show ?thesis
    proof (cases "d0 = d")
      case True
      with b s1 s2 Some have "crossings_of d (published (run_iteration cfg inp s)) =
          crossings_of d (published s) @ [t_detect fr] \<and>
        last_cross_time (run_iteration cfg inp s) d = t_detect fr \<and>
        detection_cooldown cfg \<le> t_detect fr - last_cross_time s d \<and>
        (\<exists>fr'. captured inp = Some fr' \<and> t_detect fr = t_detect fr')"
        by (simp add: ri handle_detection_crossings handle_detection_presence)
      then show ?thesis by blast
    next
      case False
      with b s1 s2 have "crossings_of d (published (run_iteration cfg inp s)) = crossings_of d (published s)
       \<and> last_cross_time (run_iteration cfg inp s) d = last_cross_time s d"
        by (simp add: ri handle_detection_crossings handle_detection_presence)
      then show ?thesis by blast
    qed
  qed
qed

lemmas eval_defs = run_iteration_def process_frame_def handle_detection_def update_presence_def
  publish_presence_def publish_def centroid_at_def no_centroid_at_def scenario_config_def
  fusion_init_def line_crossed_def point_in_polygon_def edge_intersects_def Let_def upt_rec


section \<open>Crossing events\<close>

text \<open>
  Claim C1, as stated, fails.  With the scenario taken literally (clock readings \<open>0\<close> and
  \<open>0.1\<close>) the crossing of the bedroom line is detected, but \<open>_last_cross_time\<close> starts at
  \<open>0.0\<close> and \<open>0.1 - 0.0 < detection_cooldown\<close>, so the cooldown suppresses it: nothing is
  published.
\<close>

theorem scenario1_literal_times:
  "published (run scenario_config [centroid_at (0.25, 0.20) 0, centroid_at (0.25, 0.40) 0.1] fusion_init) = []"
  by (simp add: eval_defs)

text \<open>
  Claim C1, amended.  For a freshly started service with the scenario configuration and no PIR
  message, a centroid \<open>(0.25, 0.20)\<close> at any time \<open>t0\<close> followed by a centroid \<open>(0.25, 0.40)\<close>
  at a time \<open>t1 > 1\<close> (more than the cooldown and the PIR window after the initial value
  \<open>0.0\<close> of \<open>_last_cross_time\<close> and \<open>_pir_last_on\<close>, as every wall-clock time is) publishes
  exactly one message: on \<open>events/person/bedroom/out\<close>, with \<open>ts = t1\<close>, \<open>dir = into_living\<close>,
  the second centroid and \<open>conf = 0.7\<close>.
\<close>

theorem scenario1_shifted:
  assumes "1 < t1"
  shows "published (run scenario_config [centroid_at (0.25, 0.20) t0, centroid_at (0.25, 0.40) t1] fusion_init)
     = [(''events/person/bedroom/out'', CrossingPayload t1 into_living (0.25, 0.40) 0.7)]"
  using assms by (simp add: eval_defs bed_event_out_def)

text \<open>
  The amended scenario at wall-clock times.
\<close>

theorem scenario1_shifted_witness:
  "(1::real) < 1700000000.1 \<and>
   published (run scenario_config
      [centroid_at (0.25, 0.20) 1700000000, centroid_at (0.25, 0.40) 1700000000.1] fusion_init)
     = [(''events/person/bedroom/out'', CrossingPayload 1700000000.1 into_living (0.25, 0.40) 0.7)]"
proof -
  have h: "(1::real) < 1700000000.1" by simp
  show ?thesis using h scenario1_shifted [OF h, of 1700000000] by simp
qed

lemma cooldown_inv_step:
  assumes "cooldown_inv cfg d s"
  shows "cooldown_inv cfg d (run_iteration cfg inp s)"
  using run_iteration_crossings [of d cfg inp s]
proof
  assume "crossings_of d (published (run_iteration cfg inp s)) = crossings_of d (published s) \<and>
    last_cross_time (run_iteration cfg inp s) d = last_cross_time s d"
  with assms show ?thesis by (simp add: cooldown_inv_def)
next
  assume "\<exists>t. crossings_of d (published (run_iteration cfg inp s)) = crossings_of d (published s) @ [t] \<and>
        last_cross_time (run_iteration cfg inp s) d = t \<and>
        detection_cooldown cfg \<le> t - last_cross_time s d \<and>
        (\<exists>fr. captured inp = Some fr \<and> t = t_detect fr)"
  then obtain t where t: "crossings_of d (published (run_iteration cfg inp s)) = crossings_of d (published s) @ [t]"
    "last_cross_time (run_iteration cfg inp s) d = t"
    "detection_cooldown cfg \<le> t - last_cross_time s d"
    by blast
  with assms show ?thesis
    by (auto simp: cooldown_inv_def successively_append_iff)
qed

lemma cooldown_inv_run:
  "cooldown_inv cfg d s \<Longrightarrow> cooldown_inv cfg d (run cfg inps s)"
  by (induction inps arbitrary: s) (simp_all add: cooldown_inv_step)

lemma cooldown_inv_init: "cooldown_inv cfg d fusion_init"
  by (simp add: cooldown_inv_def fusion_init_def crossings_of_def)

lemma cooldown_suppressed:
  assumes "t_detect fr - last_cross_time s d < detection_cooldown cfg"
  shows "last_cross_time (run_iteration cfg \<lparr>pir_queue = q, captured = Some fr\<rparr> s) d = last_cross_time s d \<and>
         crossings_of d (published (run_iteration cfg \<lparr>pir_queue = q, captured = Some fr\<rparr> s)) =
           crossings_of d (published s)"
  using run_iteration_crossings [of d cfg "\<lparr>pir_queue = q, captured = Some fr\<rparr>" s] assms
  by auto

text \<open>
  Claim C4.  For every door \<open>d\<close> and every execution of the service from its initial state,
  the timestamps of any two successively published crossing events of \<open>d\<close> differ by at least
  \<open>detection_cooldown\<close>.  And in any state, a frame whose detection time is less than
  \<open>detection_cooldown\<close> after \<open>last_cross_time\<close> of \<open>d\<close> (the time of the previous accepted
  crossing of \<open>d\<close>) publishes no crossing event of \<open>d\<close> and leaves \<open>last_cross_time\<close> of \<open>d\<close>
  unchanged, whatever the centroid crosses.
\<close>

theorem crossing_cooldown:
  "successively (\<lambda>t1 t2. detection_cooldown cfg \<le> t2 - t1)
     (crossings_of d (published (run cfg inps fusion_init))) \<and>
   (t_detect fr - last_cross_time s d < detection_cooldown cfg \<longrightarrow>
      last_cross_time (run_iteration cfg \<lparr>pir_queue = q, captured = Some fr\<rparr> s) d = last_cross_time s d \<and>
      crossings_of d (published (run_iteration cfg \<lparr>pir_queue = q, captured = Some fr\<rparr> s)) =
        crossings_of d (published s))"
  using cooldown_inv_run [OF cooldown_inv_init, of cfg d inps] cooldown_suppressed [of fr s d cfg q]
  by (simp add: cooldown_inv_def)

lemma cross_list:
  "crossings_of bed (published (run scenario_config
        [centroid_at (0.25, 0.20) 99, centroid_at (0.25, 0.40) 100,
         centroid_at (0.25, 0.20) 100.5, centroid_at (0.25, 0.40) 101.2] fusion_init)) = [100, 101.2]"
  by (simp add: eval_defs crossings_of_def door_topics_def payload_ts_def bed_event_out_def bed_event_in_def vision_state_def)

text \<open>
  Scenario 3 at shifted times: the bedroom line is crossed at \<open>100\<close> (published), again at
  \<open>100.5\<close> (suppressed, \<open>last_cross_time\<close> stays \<open>100\<close>) and at \<open>101.2\<close> (published).
\<close>

theorem crossing_cooldown_witness:
  "crossings_of bed (published (run scenario_config
        [centroid_at (0.25, 0.20) 99, centroid_at (0.25, 0.40) 100,
         centroid_at (0.25, 0.20) 100.5, centroid_at (0.25, 0.40) 101.2] fusion_init)) = [100, 101.2] \<and>
   successively (\<lambda>t1 t2. detection_cooldown scenario_config \<le> t2 - t1)
     (crossings_of bed (published (run scenario_config
        [centroid_at (0.25, 0.20) 99, centroid_at (0.25, 0.40) 100,
         centroid_at (0.25, 0.20) 100.5, centroid_at (0.25, 0.40) 101.2] fusion_init))) \<and>
   t_detect \<lparr>centroid_norm = Some (0.25, 0.20), t_presence = 100.5, t_publish = 100.5, t_detect = 100.5\<rparr>
     - last_cross_time
         (run scenario_config [centroid_at (0.25, 0.20) 99, centroid_at (0.25, 0.40) 100] fusion_init) bed
     < detection_cooldown scenario_config \<and>
   last_cross_time
     (run_iteration scenario_config
        \<lparr>pir_queue = [],
         captured = Some \<lparr>centroid_norm = Some (0.25, 0.20), t_presence = 100.5, t_publish = 100.5, t_detect = 100.5\<rparr>\<rparr>
        (run scenario_config [centroid_at (0.25, 0.20) 99, centroid_at (0.25, 0.40) 100] fusion_init)) bed
     = 100"
proof -
  have h: "t_detect \<lparr>centroid_norm = Some (0.25, 0.20), t_presence = 100.5, t_publish = 100.5, t_detect = 100.5\<rparr>
     - last_cross_time
         (run scenario_config [centroid_at (0.25, 0.20) 99, centroid_at (0.25, 0.40) 100] fusion_init) bed
     < detection_cooldown scenario_config"
    by (simp add: eval_defs)
  show ?thesis
    using h cross_list crossing_cooldown [of scenario_config bed
        "[centroid_at (0.25, 0.20) 99, centroid_at (0.25, 0.40) 100,
         centroid_at (0.25, 0.20) 100.5, centroid_at (0.25, 0.40) 101.2]"
        "\<lparr>centroid_norm = Some (0.25, 0.20), t_presence = 100.5, t_publish = 100.5, t_detect = 100.5\<rparr>"
        "run scenario_config [centroid_at (0.25, 0.20) 99, centroid_at (0.25, 0.40) 100] fusion_init"
        "[]"]
    by (simp add: eval_defs)
qed


section \<open>Presence events\<close>

lemma presence_inv_step:
  assumes "presence_inv s"
  shows "presence_inv (run_iteration cfg inp s)"
proof (cases "last_presence_state (run_iteration cfg inp s) = last_presence_state s")
  case True
  with assms run_iteration_presence [of cfg inp s] show ?thesis
    by (simp add: presence_inv_def)
next
  case False
  with run_iteration_presence [of cfg inp s]
  have ev: "presence_events (published (run_iteration cfg inp s)) =
     presence_events (published s) @
       [(last_presence_state (run_iteration cfg inp s),
               if last_presence_state (run_iteration cfg inp s) then 0.9 else 0.8)]"
    by simp
  show ?thesis
  proof (cases "presence_events (published s) = []")
    case True
    with assms False ev show ?thesis
      by (simp add: presence_inv_def)
  next
    case nonempty: False
    with assms False ev show ?thesis
      by (auto simp: presence_inv_def successively_append_iff)
  qed
qed

lemma presence_inv_run: "presence_inv s \<Longrightarrow> presence_inv (run cfg inps s)"
  by (induction inps arbitrary: s) (simp_all add: presence_inv_step)

lemma presence_inv_init: "presence_inv fusion_init"
  by (simp add: presence_inv_def fusion_init_def presence_events_def)

text \<open>
  Claim C5.  In every execution of the service from its initial state, the published presence
  events (the payloads \<open>{present, conf, ts}\<close>, all of them on the topic \<open>vision_state\<close>)
  alternate in \<open>present\<close>, the first one has \<open>present = True\<close>, and each has \<open>conf = 0.9\<close> when
  \<open>present\<close> is true and \<open>0.8\<close> when it is false.
\<close>

theorem presence_alternates:
  "successively (\<lambda>e1 e2. fst e1 \<noteq> fst e2) (presence_events (published (run cfg inps fusion_init))) \<and>
   (presence_events (published (run cfg inps fusion_init)) \<noteq> [] \<longrightarrow>
      fst (hd (presence_events (published (run cfg inps fusion_init))))) \<and>
   (\<forall>e \<in> set (presence_events (published (run cfg inps fusion_init))).
      snd e = (if fst e then 0.9 else 0.8))"
  using presence_inv_run [OF presence_inv_init, of cfg inps]
  by (auto simp: presence_inv_def)

lemma presence_run:
  "presence_events (published (run scenario_config
      [centroid_at (0.25, 0.40) 1, centroid_at (0.25, 0.40) 2, no_centroid_at 10, no_centroid_at 13]
      fusion_init)) = [(True, 0.9), (False, 0.8)]"
  by (simp add: eval_defs presence_events_def)

text \<open>
  An execution with two presence events: inside the polygon at \<open>1\<close> and \<open>2\<close>, no centroid at
  \<open>10\<close> and \<open>13\<close>.
\<close>

theorem presence_alternates_witness:
  "presence_events (published (run scenario_config
      [centroid_at (0.25, 0.40) 1, centroid_at (0.25, 0.40) 2, no_centroid_at 10, no_centroid_at 13]
      fusion_init)) = [(True, 0.9), (False, 0.8)] \<and>
   successively (\<lambda>e1 e2. fst e1 \<noteq> fst e2)
     (presence_events (published (run scenario_config
      [centroid_at (0.25, 0.40) 1, centroid_at (0.25, 0.40) 2, no_centroid_at 10, no_centroid_at 13]
      fusion_init))) \<and>
   fst (hd (presence_events (published (run scenario_config
      [centroid_at (0.25, 0.40) 1, centroid_at (0.25, 0.40) 2, no_centroid_at 10, no_centroid_at 13]
      fusion_init))))"
  using presence_run presence_alternates [of scenario_config
      "[centroid_at (0.25, 0.40) 1, centroid_at (0.25, 0.40) 2, no_centroid_at 10, no_centroid_at 13]"]
  by simp

text \<open>
  Claim C6, as stated, fails.  After presence was published true and then false (the exit
  timer was started at \<open>10\<close> and is not cleared when the hold expires at \<open>13\<close>), a centroid
  inside the polygon only starts the enter timer: the exit timer still reads \<open>10\<close> when
  \<open>_update_presence\<close> returns.
\<close>

theorem exit_timer_not_reset:
  "point_in_polygon (0.25, 0.40) (living_room_polygon (geometry scenario_config)) \<and>
   presence_exit_start
     (update_presence scenario_config 14 14 (Some (0.25, 0.40))
        (run scenario_config
           [centroid_at (0.25, 0.40) 1, centroid_at (0.25, 0.40) 2, no_centroid_at 10, no_centroid_at 13]
           fusion_init)) = 10"
  by (simp add: eval_defs)

text \<open>
  Claim C6, amended.  For every call of \<open>_update_presence\<close> with a centroid inside the
  living-room polygon: if the service is present when the call returns (it was present before,
  or the call confirmed presence), the exit timer is \<open>0\<close>; if it is not present when the call
  returns, the exit timer is what it was before the call.
\<close>

theorem update_presence_exit_timer:
  assumes "point_in_polygon c (living_room_polygon (geometry cfg))"
  shows "(last_presence_state (update_presence cfg ts tp (Some c) s) \<longrightarrow>
            presence_exit_start (update_presence cfg ts tp (Some c) s) = 0) \<and>
         (\<not> last_presence_state (update_presence cfg ts tp (Some c) s) \<longrightarrow>
            presence_exit_start (update_presence cfg ts tp (Some c) s) = presence_exit_start s)"
  using assms by (simp add: update_presence_def publish_presence_def publish_def)

text \<open>
  The call that confirms presence: inside the polygon at \<open>1\<close> and again at \<open>2\<close>.
\<close>

theorem update_presence_exit_timer_witness:
  "point_in_polygon (0.25, 0.40) (living_room_polygon (geometry scenario_config)) \<and>
   last_presence_state (update_presence scenario_config 2 2 (Some (0.25, 0.40))
      (run scenario_config [centroid_at (0.25, 0.40) 1] fusion_init)) \<and>
   presence_exit_start (update_presence scenario_config 2 2 (Some (0.25, 0.40))
      (run scenario_config [centroid_at (0.25, 0.40) 1] fusion_init)) = 0"
proof -
  have h: "point_in_polygon (0.25, 0.40) (living_room_polygon (geometry scenario_config))"
    by (simp add: eval_defs)
  have p: "last_presence_state (update_presence scenario_config 2 2 (Some (0.25, 0.40))
      (run scenario_config [centroid_at (0.25, 0.40) 1] fusion_init))"
    by (simp add: eval_defs)
  show ?thesis
    using h p update_presence_exit_timer [OF h, of 2 2 "run scenario_config [centroid_at (0.25, 0.40) 1] fusion_init"]
    by simp
qed


section \<open>Spotlight hardware and controller\<close>

text \<open>
  Claim C9, as stated, fails for the servo angles.  \<open>load_config\<close> accepts any pair of bounds;
  with \<open>servo_min_angle = 90\<close> and \<open>servo_max_angle = -90\<close> the clamp
  \<open>max(min_angle, min(max_angle, angle))\<close> returns \<open>90\<close> for every angle, which is above
  \<open>servo_max_angle\<close>.
\<close>

theorem clamp_angle_reversed_bounds:
  "servo_max_angle (default_config\<lparr>servo_min_angle := 90, servo_max_angle := - 90\<rparr>) < 90 \<and>
   writes (set_orientation (default_config\<lparr>servo_min_angle := 90, servo_max_angle := - 90\<rparr>) 0 0
             \<lparr>mock = False, writes = []\<rparr>) = [PanAngle 90, TiltAngle 90]"
  by (simp add: set_orientation_def clamp_angle_def default_config_def Let_def)

text \<open>
  Claim C9, amended.  Whenever \<open>servo_min_angle \<le> servo_max_angle\<close>, every call of
  \<open>set_orientation\<close>, with any pan and tilt, writes (or, in mock mode, logs) angles within
  \<open>[servo_min_angle, servo_max_angle]\<close>; and every call of \<open>set_brightness\<close>, with any argument
  and any configuration, writes (or logs) a value within \<open>[0, 1]\<close>.
\<close>

theorem hardware_values_clamped:
  "(servo_min_angle cfg \<le> servo_max_angle cfg \<longrightarrow>
      (\<exists>p t. writes (set_orientation cfg pan tilt h) =
                 writes h @ (if mock h then [MockOrientation p t] else [PanAngle p, TiltAngle t]) \<and>
              servo_min_angle cfg \<le> p \<and> p \<le> servo_max_angle cfg \<and>
              servo_min_angle cfg \<le> t \<and> t \<le> servo_max_angle cfg)) \<and>
   (\<exists>v. writes (set_brightness x h) = writes h @ [if mock h then MockBrightness v else LedValue v] \<and>
         0 \<le> v \<and> v \<le> 1)"
proof (intro conjI impI)
  assume le: "servo_min_angle cfg \<le> servo_max_angle cfg"
  show "\<exists>p t. writes (set_orientation cfg pan tilt h) =
                 writes h @ (if mock h then [MockOrientation p t] else [PanAngle p, TiltAngle t]) \<and>
              servo_min_angle cfg \<le> p \<and> p \<le> servo_max_angle cfg \<and>
              servo_min_angle cfg \<le> t \<and> t \<le> servo_max_angle cfg"
    using le
    by (intro exI [of _ "clamp_angle cfg pan"] exI [of _ "clamp_angle cfg tilt"])
       (simp add: set_orientation_def clamp_angle_def Let_def)
next
  show "\<exists>v. writes (set_brightness x h) = writes h @ [if mock h then MockBrightness v else LedValue v] \<and>
         0 \<le> v \<and> v \<le> 1"
    by (intro exI [of _ "max 0 (min 1 x)"]) (simp add: set_brightness_def Let_def)
qed

text \<open>
  Out-of-range arguments with the default configuration.
\<close>

theorem hardware_values_clamped_witness:
  "servo_min_angle default_config \<le> servo_max_angle default_config \<and>
   writes (set_orientation default_config 120 (-200) \<lparr>mock = False, writes = []\<rparr>) =
     [PanAngle 90, TiltAngle (-90)] \<and>
   writes (set_brightness 1.5 \<lparr>mock = False, writes = []\<rparr>) = [LedValue 1]"
proof -
  have h: "servo_min_angle default_config \<le> servo_max_angle default_config"
    by (simp add: default_config_def)
  have e: "writes (set_orientation default_config 120 (-200) \<lparr>mock = False, writes = []\<rparr>) =
     [PanAngle 90, TiltAngle (-90)]"
    "writes (set_brightness 1.5 \<lparr>mock = False, writes = []\<rparr>) = [LedValue 1]"
    by (simp_all add: set_orientation_def set_brightness_def clamp_angle_def default_config_def Let_def)
  show ?thesis
    using h e hardware_values_clamped [of default_config 120 "-200" "\<lparr>mock = False, writes = []\<rparr>" "1.5"]
    by simp
qed

text \<open>
  Claim C10, as stated, fails: it promises exactly one hardware transition from any state.
  From a state whose stored brightness is already the active brightness, two calls of
  \<open>_activate\<close> write nothing at all; both only refresh \<open>last_on\<close>.
\<close>

theorem activate_twice_from_active:
  "activate default_config 1
     \<lparr>hw = \<lparr>mock = False, writes = []\<rparr>, last_on = 0, current_brightness = 0.85, lock_held = False\<rparr>
     = Some \<lparr>hw = \<lparr>mock = False, writes = []\<rparr>, last_on = 1, current_brightness = 0.85, lock_held = False\<rparr> \<and>
   activate default_config 2
     \<lparr>hw = \<lparr>mock = False, writes = []\<rparr>, last_on = 1, current_brightness = 0.85, lock_held = False\<rparr>
     = Some \<lparr>hw = \<lparr>mock = False, writes = []\<rparr>, last_on = 2, current_brightness = 0.85, lock_held = False\<rparr>"
  by (simp add: activate_def acquire_def release_def default_config_def)

text \<open>
  Claim C10, amended.  From any state in which the lock is free, two calls of \<open>_activate\<close>
  with no call in between both return; the second call changes nothing but \<open>last_on\<close>, which
  becomes the time of the second call (no servo write, no LED write, stored brightness
  unchanged); and the first call makes exactly one hardware transition (the two servo angles
  and the LED value) when the stored brightness was not the active brightness, and none when it
  was.
\<close>

theorem activate_twice:
  assumes "\<not> lock_held s"
  shows "\<exists>s1. activate cfg t1 s = Some s1 \<and>
           activate cfg t2 s1 = Some (s1\<lparr>last_on := t2\<rparr>) \<and>
           writes (hw s1) =
             writes (hw s) @
               (if current_brightness s = brightness cfg then []
                else (if mock (hw s)
                      then [MockOrientation (clamp_angle cfg (servo_pan_angle cfg))
                              (clamp_angle cfg (servo_tilt_angle cfg)),
                            MockBrightness (max 0 (min 1 (brightness cfg)))]
                      else [PanAngle (clamp_angle cfg (servo_pan_angle cfg)),
                            TiltAngle (clamp_angle cfg (servo_tilt_angle cfg)),
                            LedValue (max 0 (min 1 (brightness cfg)))]))"
  using assms
  by (cases "current_brightness s = brightness cfg")
     (simp_all add: activate_def acquire_def release_def set_orientation_def set_brightness_def Let_def)

text \<open>
  Two activations of a freshly constructed controller with the default configuration.
\<close>

theorem activate_twice_witness:
  "\<not> lock_held (controller_init default_config False) \<and>
   activate default_config 0 (controller_init default_config False) =
     Some \<lparr>hw = \<lparr>mock = False, writes = [PanAngle (-20), TiltAngle (-5), LedValue 0.85]\<rparr>,
           last_on = 0, current_brightness = 0.85, lock_held = False\<rparr> \<and>
   activate default_config 3
     \<lparr>hw = \<lparr>mock = False, writes = [PanAngle (-20), TiltAngle (-5), LedValue 0.85]\<rparr>,
      last_on = 0, current_brightness = 0.85, lock_held = False\<rparr> =
     Some \<lparr>hw = \<lparr>mock = False, writes = [PanAngle (-20), TiltAngle (-5), LedValue 0.85]\<rparr>,
           last_on = 3, current_brightness = 0.85, lock_held = False\<rparr>"
proof -
  have h: "\<not> lock_held (controller_init default_config False)"
    by (simp add: controller_init_def)
  have a: "activate default_config 0 (controller_init default_config False) =
     Some \<lparr>hw = \<lparr>mock = False, writes = [PanAngle (-20), TiltAngle (-5), LedValue 0.85]\<rparr>,
           last_on = 0, current_brightness = 0.85, lock_held = False\<rparr>"
    by (simp add: activate_def acquire_def release_def set_orientation_def set_brightness_def
        clamp_angle_def controller_init_def default_config_def Let_def)
  show ?thesis
    using h a activate_twice [OF h, of default_config 0 3]
    by (auto simp: controller_init_def default_config_def clamp_angle_def)
qed

text \<open>
  Claim C2 (the code fails it).  With the default configuration, a controller at active
  brightness \<open>0.85\<close> whose \<open>last_on\<close> is \<open>0\<close> gets a tick at time \<open>9 \<ge> light_hold_seconds\<close>.
  \<open>periodic\<close> takes the lock and calls \<open>_deactivate\<close>, which waits for the same lock: the tick
  never returns and nothing is written.  \<open>_deactivate\<close> called directly from the same state does
  what the claim describes.
\<close>

theorem periodic_expired_blocks:
  "periodic default_config 9
     \<lparr>hw = \<lparr>mock = False, writes = []\<rparr>, last_on = 0, current_brightness = 0.85, lock_held = False\<rparr>
     = None \<and>
   deactivate default_config
     \<lparr>hw = \<lparr>mock = False, writes = []\<rparr>, last_on = 0, current_brightness = 0.85, lock_held = False\<rparr>
     = Some \<lparr>hw = \<lparr>mock = False, writes = [LedValue 0, PanAngle 0, TiltAngle 0]\<rparr>,
             last_on = 0, current_brightness = 0, lock_held = False\<rparr>"
  by (simp add: periodic_def deactivate_def acquire_def release_def set_orientation_def
      set_brightness_def clamp_angle_def default_config_def Let_def)

text \<open>
  Claim C3 (the code fails it).  Scenario 6: a freshly constructed controller is activated at
  time \<open>0\<close>; the tick at time \<open>8.5\<close>, after the hold window of \<open>8\<close> seconds, does not return.
\<close>

theorem periodic_after_activate_never_returns:
  "activate default_config 0 (controller_init default_config False) =
     Some \<lparr>hw = \<lparr>mock = False, writes = [PanAngle (-20), TiltAngle (-5), LedValue 0.85]\<rparr>,
           last_on = 0, current_brightness = 0.85, lock_held = False\<rparr> \<and>
   periodic default_config 8.5
     \<lparr>hw = \<lparr>mock = False, writes = [PanAngle (-20), TiltAngle (-5), LedValue 0.85]\<rparr>,
      last_on = 0, current_brightness = 0.85, lock_held = False\<rparr> = None"
  by (simp add: periodic_def deactivate_def activate_def acquire_def release_def set_orientation_def
      set_brightness_def clamp_angle_def controller_init_def default_config_def Let_def)

end
